theory Spec2Isabelle
  imports Main "HOL-Library.FSet" "HOL-Library.Product_Lexorder" "HOL-Library.Sublist"
begin

section \<open>Python strings\<close>

text \<open>
  A Python \<open>str\<close> is modelled as a \<open>string\<close>, one \<open>char\<close> per code point, which covers
  the code points below 256. The functions of this section are the methods of \<open>str\<close> and
  the builtin \<open>int\<close> that \<open>process_csv\<close> calls.
\<close>

definition py_isspace :: "char \<Rightarrow> bool" where
  \<comment> \<open>\<open>str.isspace\<close> on one code point below 256: TAB..CR, FS..US, space, NEL, NBSP.\<close>
  "py_isspace c =
     (let n = (of_char c :: nat)
      in (9 \<le> n \<and> n \<le> 13) \<or> (28 \<le> n \<and> n \<le> 32) \<or> n = 133 \<or> n = 160)"

definition rstrip :: "string \<Rightarrow> string" where
  \<comment> \<open>\<open>s.rstrip()\<close>: trailing whitespace removed.\<close>
  "rstrip s = rev (dropWhile py_isspace (rev s))"

definition int_isspace :: "char \<Rightarrow> bool" where
  \<comment> \<open>The whitespace that \<open>int\<close> skips around a literal: that of \<open>str.isspace\<close>
      without FS..US.\<close>
  "int_isspace c =
     (let n = (of_char c :: nat)
      in (9 \<le> n \<and> n \<le> 13) \<or> n = 32 \<or> n = 133 \<or> n = 160)"

definition int_strip :: "string \<Rightarrow> string" where
  "int_strip s = dropWhile int_isspace (rev (dropWhile int_isspace (rev s)))"

fun py_split :: "char \<Rightarrow> string \<Rightarrow> string list" where
  \<comment> \<open>\<open>s.split(sep)\<close> for a one-character separator; the result is never empty.\<close>
  "py_split sep [] = [[]]"
| "py_split sep (c # cs) =
     (if c = sep then [] # py_split sep cs
      else (case py_split sep cs of
              p # ps \<Rightarrow> (c # p) # ps
            | [] \<Rightarrow> [[c]]))"

definition is_digit :: "char \<Rightarrow> bool" where
  \<comment> \<open>The decimal digits among the code points below 256 are \<open>0\<close> to \<open>9\<close>.\<close>
  "is_digit c = (let n = (of_char c :: nat) in 48 \<le> n \<and> n \<le> 57)"

definition digit_val :: "char \<Rightarrow> int" where
  "digit_val c = int (of_char c) - 48"

fun digits_from :: "int \<Rightarrow> string \<Rightarrow> int option" where
  \<comment> \<open>The rest of a decimal literal after a digit: digits, each optionally preceded
      by one underscore.\<close>
  "digits_from acc [] = Some acc"
| "digits_from acc (c # cs) =
     (if is_digit c then digits_from (acc * 10 + digit_val c) cs
      else if c = CHR ''_'' then
        (case cs of
           [] \<Rightarrow> None
         | d # ds \<Rightarrow> if is_digit d then digits_from (acc * 10 + digit_val d) ds else None)
      else None)"

definition too_many_digits :: "nat \<Rightarrow> nat \<Rightarrow> bool" where
  \<comment> \<open>The interpreter's limit on the digits of a literal that \<open>int\<close> converts:
      \<open>lim\<close> is \<open>sys.get_int_max_str_digits()\<close>, 4300 unless set otherwise, and 0 is no
      limit (as before the limit existed); up to 640 digits are never checked.\<close>
  "too_many_digits lim n = (640 < n \<and> 0 < lim \<and> lim < n)"

definition decimal :: "nat \<Rightarrow> string \<Rightarrow> int option" where
  \<comment> \<open>A decimal literal; its digits are counted without the underscores, leading
      zeros included.\<close>
  "decimal lim s =
     (if too_many_digits lim (length (filter is_digit s)) then None
      else (case s of
              [] \<Rightarrow> None
            | c # cs \<Rightarrow> if is_digit c then digits_from (digit_val c) cs else None))"

definition py_int :: "nat \<Rightarrow> string \<Rightarrow> int option" where
  \<comment> \<open>\<open>int(s)\<close> for a \<open>str\<close>, base 10, under the digit limit \<open>lim\<close>: surrounding
      whitespace, an optional sign, a decimal literal. \<open>None\<close> is the \<open>ValueError\<close>.\<close>
  "py_int lim s = (case int_strip s of
                     [] \<Rightarrow> None
                   | c # cs \<Rightarrow>
                       if c = CHR ''-'' then map_option uminus (decimal lim cs)
                       else if c = CHR ''+'' then decimal lim cs
                       else decimal lim (c # cs))"

section \<open>Exceptions, log records and collaborators\<close>

datatype py_exn =
    ValueError
  | SystemExit "string option"
  | Raised string  \<comment> \<open>any other exception, raised by the file system or a collaborator\<close>

datatype warning =
    Expecting_6_parts nat
  | Malformed_date
  | Not_a_Sunday
  | Expected_5_workdays nat

datatype 'd event =
    New_Time_Reporter string string
  | Get_overdue_weeks
  | Print string
  | Process_csv string
  | New_PyExch string
  | Weekly_hours_worked 'd
  | Log_overdue_date 'd
  | Log_found_match 'd "int list"
  | Submit 'd "int list"
  | Log_submitted 'd "int list"

text \<open>
  What \<open>ptr.py\<close> imports and calls but does not define: the interpreter's limit on
  the digits of an integer literal, the \<open>datetime\<close> library, the file system, and the
  modules \<open>time_reporter\<close> and \<open>pyexch\<close>. The type \<open>'d\<close> is the
  \<open>datetime\<close> value that keys both dictionaries. A call that may raise returns the
  exception as a value. \<open>submit\<close> sees the events so far, so that its outcome may depend
  on the earlier submissions. The dictionary that \<open>get_overdue_weeks\<close> returns is the
  finite set of its keys: \<open>run\<close> takes its length, its smallest key and its keys in
  sorted order, and never reads a value of it. A file is the list of the lines that
  iterating over it yields, each with its line end.
\<close>

record 'd env =
  int_max_str_digits :: nat
  DATE_FORMAT :: string
  strptime :: "string \<Rightarrow> string \<Rightarrow> 'd option"
  weekday :: "'d \<Rightarrow> nat"
  strftime :: "'d \<Rightarrow> string \<Rightarrow> string"
  combine_midnight :: "'d \<Rightarrow> 'd"
  file_lines :: "string \<Rightarrow> py_exn + string list"
  Time_Reporter :: "string \<Rightarrow> string \<Rightarrow> py_exn option"
  get_overdue_weeks :: "py_exn + 'd fset"
  submit :: "'d event list \<Rightarrow> 'd \<Rightarrow> int list \<Rightarrow> py_exn option"
  PyExch :: "string \<Rightarrow> py_exn option"
  weekly_hours_worked :: "'d \<Rightarrow> py_exn + ('d \<rightharpoonup> int list)"

section \<open>\<open>process_csv\<close>\<close>

datatype 'd verdict = Skip warning | Store 'd "int list"

fun weekday_hours_of :: "nat \<Rightarrow> string list \<Rightarrow> py_exn + int list" where
  \<comment> \<open>\<open>[ 8 if len(x)<1 else int(x) for x in xs ]\<close>, under the digit limit \<open>lim\<close>\<close>
  "weekday_hours_of lim [] = Inr []"
| "weekday_hours_of lim (x # xs) =
     (case (if length x < 1 then Some 8 else py_int lim x) of
        None \<Rightarrow> Inl ValueError
      | Some h \<Rightarrow> (case weekday_hours_of lim xs of
                    Inl e \<Rightarrow> Inl e
                  | Inr hs \<Rightarrow> Inr (h # hs)))"

definition process_line :: "'d env \<Rightarrow> string \<Rightarrow> py_exn + 'd verdict" where
  \<comment> \<open>The body of the loop over the lines of the file.\<close>
  "process_line E l =
     (let line = rstrip l;
          parts = py_split CHR '','' line
      in if length parts \<noteq> 6 then Inr (Skip (Expecting_6_parts (length parts)))
         else (case strptime E (hd parts) (DATE_FORMAT E) of
                 None \<Rightarrow> Inr (Skip Malformed_date)
               | Some d \<Rightarrow>
                   if weekday E d \<noteq> 6 then Inr (Skip Not_a_Sunday)
                   else (case weekday_hours_of (int_max_str_digits E) (take 5 (drop 1 parts)) of
                           Inl e \<Rightarrow> Inl e
                         | Inr weekday_hours \<Rightarrow>
                             if length weekday_hours \<noteq> 5
                             then Inr (Skip (Expected_5_workdays (length weekday_hours)))
                             else Inr (Store d weekday_hours))))"

fun process_lines ::
  "'d env \<Rightarrow> string list \<Rightarrow> ('d \<rightharpoonup> int list) \<Rightarrow> py_exn + ('d \<rightharpoonup> int list)" where
  "process_lines E [] dates_hours = Inr dates_hours"
| "process_lines E (l # ls) dates_hours =
     (case process_line E l of
        Inl e \<Rightarrow> Inl e
      | Inr (Skip w) \<Rightarrow> process_lines E ls dates_hours
      | Inr (Store d weekday_hours) \<Rightarrow> process_lines E ls (dates_hours(d \<mapsto> weekday_hours)))"

definition process_csv :: "'d env \<Rightarrow> string \<Rightarrow> py_exn + ('d \<rightharpoonup> int list)" where
  "process_csv E infile =
     (case file_lines E infile of
        Inl e \<Rightarrow> Inl e
      | Inr ls \<Rightarrow> process_lines E ls Map.empty)"

section \<open>\<open>run\<close>\<close>

record args =
  user :: string
  passwd :: string
  dryrun :: bool
  once :: bool
  csv :: "string option"
  exch :: bool
  list_overdue :: bool

datatype outcome = Returns | Raises py_exn

definition exit_status :: "outcome \<Rightarrow> nat" where
  \<comment> \<open>The status of the process when \<open>run\<close>, called last by the script, ends so:
      \<open>SystemExit\<close> without an argument is 0; with a string, the interpreter prints
      the string on the standard error stream and the status is 1; any other
      exception is a traceback and 1.\<close>
  "exit_status out =
     (case out of
        Returns \<Rightarrow> 0
      | Raises (SystemExit None) \<Rightarrow> 0
      | Raises _ \<Rightarrow> 1)"

definition csv_path :: "args \<Rightarrow> string option" where
  \<comment> \<open>\<open>args.csv\<close> where \<open>if args.csv\<close> holds: neither \<open>None\<close> nor the empty string.\<close>
  "csv_path a = (case csv a of
                   None \<Rightarrow> None
                 | Some f \<Rightarrow> if f = [] then None else Some f)"

definition load_data ::
  "('d::linorder) env \<Rightarrow> args \<Rightarrow> 'd fset \<Rightarrow> 'd event list
     \<Rightarrow> 'd event list \<times> (py_exn + ('d \<rightharpoonup> int list))" where
  \<comment> \<open>\<open>if args.csv: ... elif args.exch: ...\<close>, with \<open>data = {}\<close> before it. \<open>min\<close> of no
      keys raises \<open>ValueError\<close>.\<close>
  "load_data E a overdue tr =
     (case csv_path a of
        Some f \<Rightarrow> (tr @ [Process_csv f], process_csv E f)
      | None \<Rightarrow>
          if exch a then
            (case PyExch E (passwd a) of
               Some e \<Rightarrow> (tr @ [New_PyExch (passwd a)], Inl e)
             | None \<Rightarrow>
                 if overdue = {||} then (tr @ [New_PyExch (passwd a)], Inl ValueError)
                 else
                   (let start_date = fMin overdue;
                        start = combine_midnight E start_date
                    in (tr @ [New_PyExch (passwd a), Weekly_hours_worked start],
                        weekly_hours_worked E start)))
          else (tr, Inr Map.empty))"

definition submit_week ::
  "'d env \<Rightarrow> args \<Rightarrow> 'd event list \<Rightarrow> 'd \<Rightarrow> int list \<Rightarrow> 'd event list \<times> py_exn option" where
  \<comment> \<open>\<open>if not args.dryrun: reporter.submit(...); logging.info(...)\<close>. The result holds
      the events after it and the exception that \<open>submit\<close> raised, if any.\<close>
  "submit_week E a tr key hours =
     (if \<not> dryrun a then
        (case submit E tr key hours of
           Some e \<Rightarrow> (tr @ [Submit key hours], Some e)
         | None \<Rightarrow> (tr @ [Submit key hours, Log_submitted key hours], None))
      else (tr, None))"

fun walk ::
  "'d env \<Rightarrow> args \<Rightarrow> ('d \<rightharpoonup> int list) \<Rightarrow> 'd event list \<Rightarrow> 'd list
     \<Rightarrow> 'd event list \<times> outcome" where
  \<comment> \<open>The loop over the sorted overdue dates; \<open>tr\<close> holds the events so far.\<close>
  "walk E a data tr [] = (tr, Returns)"
| "walk E a data tr (key # keys) =
     (let tr1 = tr @ [Log_overdue_date key]
      in case data key of
           None \<Rightarrow> walk E a data tr1 keys
         | Some hours \<Rightarrow>
             (case submit_week E a (tr1 @ [Log_found_match key hours]) key hours of
                (tr3, Some e) \<Rightarrow> (tr3, Raises e)
              | (tr3, None) \<Rightarrow>
                  if once a then (tr3, Raises (SystemExit None))
                  else walk E a data tr3 keys))"

definition run :: "('d::linorder) env \<Rightarrow> args \<Rightarrow> 'd event list \<times> outcome" where
  "run E a =
     (let tr0 = [New_Time_Reporter (user a) (passwd a)]
      in case Time_Reporter E (user a) (passwd a) of
           Some e \<Rightarrow> (tr0, Raises e)
         | None \<Rightarrow>
             (let tr1 = tr0 @ [Get_overdue_weeks]
              in case get_overdue_weeks E of
                   Inl e \<Rightarrow> (tr1, Raises e)
                 | Inr overdue \<Rightarrow>
                     if fcard overdue < 1 then
                       (tr1, Raises (SystemExit
                          (Some ''You have no overdue weeks. Congratulations!'')))
                     else if list_overdue a then
                       (tr1 @ Print ''Overdue Dates''
                          # map (\<lambda>k. Print (strftime E k ''%Y-%b-%d''))
                              (sorted_list_of_fset overdue),
                        Raises (SystemExit None))
                     else
                       (case load_data E a overdue tr1 of
                          (tr2, Inl e) \<Rightarrow> (tr2, Raises e)
                        | (tr2, Inr data) \<Rightarrow>
                            walk E a data tr2 (sorted_list_of_fset overdue))))"

subsection \<open>Reading a trace\<close>

definition printed :: "'d event list \<Rightarrow> string list" where
  "printed tr = concat (map (\<lambda>ev. case ev of Print s \<Rightarrow> [s] | _ \<Rightarrow> []) tr)"

definition visited :: "'d event list \<Rightarrow> 'd list" where
  "visited tr = concat (map (\<lambda>ev. case ev of Log_overdue_date k \<Rightarrow> [k] | _ \<Rightarrow> []) tr)"

definition matched :: "'d event list \<Rightarrow> 'd list" where
  "matched tr = concat (map (\<lambda>ev. case ev of Log_found_match k h \<Rightarrow> [k] | _ \<Rightarrow> []) tr)"

definition submissions :: "'d event list \<Rightarrow> ('d \<times> int list) list" where
  "submissions tr = concat (map (\<lambda>ev. case ev of Submit k h \<Rightarrow> [(k, h)] | _ \<Rightarrow> []) tr)"

definition completed :: "'d event list \<Rightarrow> 'd list" where
  \<comment> \<open>The weeks whose call of \<open>submit\<close> returned.\<close>
  "completed tr = concat (map (\<lambda>ev. case ev of Log_submitted k h \<Rightarrow> [k] | _ \<Rightarrow> []) tr)"

definition is_data_source :: "'d event \<Rightarrow> bool" where
  "is_data_source ev =
     (case ev of
        Process_csv f \<Rightarrow> True
      | New_PyExch p \<Rightarrow> True
      | Weekly_hours_worked d \<Rightarrow> True
      | _ \<Rightarrow> False)"

section \<open>The calendar of the \<open>datetime\<close> library\<close>

text \<open>
  A concrete \<open>datetime\<close>, for evaluating the functions above: a date of the proleptic
  Gregorian calendar as year, month and day, ordered chronologically. The time of day,
  which is midnight in every value that \<open>strptime\<close> returns for a format without a time,
  is left out.
\<close>

type_synonym ymd = "int \<times> int \<times> int"

definition is_leap :: "int \<Rightarrow> bool" where
  "is_leap y = (y mod 4 = 0 \<and> (y mod 400 = 0 \<or> y mod 100 \<noteq> 0))"

definition days_in_month :: "int \<Rightarrow> int \<Rightarrow> int" where
  "days_in_month y m =
     (if m = 2 then (if is_leap y then 29 else 28)
      else if m = 4 \<or> m = 6 \<or> m = 9 \<or> m = 11 then 30
      else 31)"

definition toordinal :: "ymd \<Rightarrow> int" where
  \<comment> \<open>Days since the day before 0001-01-01.\<close>
  "toordinal dt =
     (case dt of (y, m, d) \<Rightarrow>
        (y - 1) * 365 + (y - 1) div 4 - (y - 1) div 100 + (y - 1) div 400
        + sum_list (map (days_in_month y) [1..m - 1]) + d)"

definition py_weekday :: "ymd \<Rightarrow> nat" where
  \<comment> \<open>\<open>d.weekday()\<close>: Monday is 0, Sunday is 6.\<close>
  "py_weekday dt = nat ((toordinal dt + 6) mod 7)"

definition nat_of_digits :: "string \<Rightarrow> nat" where
  "nat_of_digits s = foldl (\<lambda>acc c. acc * 10 + (of_char c - 48)) 0 s"

definition month_field :: "string \<Rightarrow> bool" where
  \<comment> \<open>What the directive \<open>%m\<close> reads: \<open>1[0-2]|0[1-9]|[1-9]\<close>.\<close>
  "month_field s =
     (case s of
        [c] \<Rightarrow> is_digit c \<and> c \<noteq> CHR ''0''
      | [c, d] \<Rightarrow> (c = CHR ''1'' \<and> (d = CHR ''0'' \<or> d = CHR ''1'' \<or> d = CHR ''2''))
                  \<or> (c = CHR ''0'' \<and> is_digit d \<and> d \<noteq> CHR ''0'')
      | _ \<Rightarrow> False)"

definition day_field :: "string \<Rightarrow> bool" where
  \<comment> \<open>What the directive \<open>%d\<close> reads: \<open>3[01]|[12]\d|0[1-9]|[1-9]| [1-9]\<close>.\<close>
  "day_field s =
     (case s of
        [c] \<Rightarrow> is_digit c \<and> c \<noteq> CHR ''0''
      | [c, d] \<Rightarrow> (c = CHR ''3'' \<and> (d = CHR ''0'' \<or> d = CHR ''1''))
                  \<or> ((c = CHR ''1'' \<or> c = CHR ''2'') \<and> is_digit d)
                  \<or> ((c = CHR ''0'' \<or> c = CHR '' '') \<and> is_digit d \<and> d \<noteq> CHR ''0'')
      | _ \<Rightarrow> False)"

definition parse_ymd :: "string \<Rightarrow> ymd option" where
  \<comment> \<open>\<open>strptime(s, '%Y-%m-%d')\<close>: four digits, a month and a day, separated by hyphens
      and naming a date that exists, from year 1 on. \<open>None\<close> is the \<open>ValueError\<close>.\<close>
  "parse_ymd s =
     (case py_split CHR ''-'' s of
        [ys, ms, ds] \<Rightarrow>
          if length ys = 4 \<and> list_all is_digit ys \<and> month_field ms \<and> day_field ds then
            (let y = int (nat_of_digits ys);
                 m = int (nat_of_digits ms);
                 d = int (nat_of_digits (filter is_digit ds))
             in if 1 \<le> y \<and> d \<le> days_in_month y m then Some (y, m, d) else None)
          else None
      | _ \<Rightarrow> None)"

definition py_strptime :: "string \<Rightarrow> string \<Rightarrow> ymd option" where
  \<comment> \<open>Only the format that \<open>sample_env\<close> uses is modelled.\<close>
  "py_strptime s fmt = (if fmt = ''%Y-%m-%d'' then parse_ymd s else None)"

definition digit_char :: "int \<Rightarrow> char" where
  "digit_char n = char_of (48 + nat (n mod 10))"

definition pad2 :: "int \<Rightarrow> string" where
  "pad2 n = [digit_char (n div 10), digit_char n]"

definition pad4 :: "int \<Rightarrow> string" where
  "pad4 n = [digit_char (n div 1000), digit_char (n div 100), digit_char (n div 10), digit_char n]"

definition month_abbr :: "int \<Rightarrow> string" where
  \<comment> \<open>\<open>%b\<close> in the C locale.\<close>
  "month_abbr m =
     [''Jan'', ''Feb'', ''Mar'', ''Apr'', ''May'', ''Jun'',
      ''Jul'', ''Aug'', ''Sep'', ''Oct'', ''Nov'', ''Dec''] ! nat (m - 1)"

fun py_strftime :: "ymd \<Rightarrow> string \<Rightarrow> string" where
  \<comment> \<open>\<open>d.strftime(fmt)\<close> for the directives \<open>%Y\<close>, \<open>%b\<close>, \<open>%m\<close> and \<open>%d\<close>, on a valid date
      of the years 1000 to 9999.\<close>
  "py_strftime dt [] = []"
| "py_strftime dt [c] = [c]"
| "py_strftime dt (c # e # cs) =
     (if c = CHR ''%'' then
        (if e = CHR ''Y'' then pad4 (fst dt)
         else if e = CHR ''b'' then month_abbr (fst (snd dt))
         else if e = CHR ''m'' then pad2 (fst (snd dt))
         else if e = CHR ''d'' then pad2 (snd (snd dt))
         else [c, e]) @ py_strftime dt cs
      else c # py_strftime dt (e # cs))"

definition sample_env :: "string list \<Rightarrow> ymd fset \<Rightarrow> ymd env" where
  \<comment> \<open>Modelled from the spec: the constant \<open>Time_Reporter.DATE_FORMAT\<close> is defined in the
      module \<open>time_reporter\<close>, which is not among the sources; the spec gives the date of
      a CSV record as \<open>YYYY-MM-DD\<close>. The digit limit is the interpreter's default. The
      file holds the lines \<open>ls\<close>, the back end reports
      the weeks \<open>overdue\<close>, the calendar has no entries, and no collaborator raises.\<close>
  "sample_env ls overdue =
     \<lparr> int_max_str_digits = 4300,
       DATE_FORMAT = ''%Y-%m-%d'',
       strptime = py_strptime,
       weekday = py_weekday,
       strftime = py_strftime,
       combine_midnight = (\<lambda>d. d),
       file_lines = (\<lambda>f. Inr ls),
       Time_Reporter = (\<lambda>u p. None),
       get_overdue_weeks = Inr overdue,
       submit = (\<lambda>tr d h. None),
       PyExch = (\<lambda>p. None),
       weekly_hours_worked = (\<lambda>d. Inr Map.empty) \<rparr>"

definition sample_args :: args where
  "sample_args =
     \<lparr> user = ''u'', passwd = ''p'', dryrun = False, once = False,
       csv = Some ''hours.csv'', exch = False, list_overdue = False \<rparr>"

section \<open>Properties of the string functions\<close>

lemma py_split_not_Nil: "py_split sep s \<noteq> []"
  by (induction s) (auto split: list.splits)

lemma py_split_no_sep: "sep \<notin> set s \<Longrightarrow> py_split sep s = [s]"
  by (induction s) auto

lemma py_split_field: "sep \<notin> set s \<Longrightarrow> py_split sep (s @ sep # t) = s # py_split sep t"
  by (induction s) (auto split: list.splits simp: py_split_not_Nil)

lemma rstrip_append_ws:
  assumes "list_all py_isspace ws" and "s = [] \<or> \<not> py_isspace (last s)"
  shows "rstrip (s @ ws) = s"
proof -
  have ws: "dropWhile py_isspace (rev ws @ r) = dropWhile py_isspace r" for r
    using assms(1) by (simp add: dropWhile_append list_all_iff)
  have "dropWhile py_isspace (rev s) = rev s"
    using assms(2) by (cases s rule: rev_cases) auto
  then show ?thesis by (simp add: rstrip_def ws)
qed

lemma is_digit_not_space: "is_digit c \<Longrightarrow> \<not> py_isspace c"
  by (auto simp: is_digit_def py_isspace_def Let_def)

lemma is_digit_not_comma: "is_digit c \<Longrightarrow> c \<noteq> CHR '',''"
  by (auto simp: is_digit_def Let_def)

lemma is_digit_not_sign: "is_digit c \<Longrightarrow> c \<noteq> CHR ''-'' \<and> c \<noteq> CHR ''+'' \<and> c \<noteq> CHR ''_''"
  by (auto simp: is_digit_def Let_def)

lemma comma_not_space: "\<not> py_isspace CHR '',''"
  by (simp add: py_isspace_def Let_def)

lemma digits_from_digits:
  "list_all is_digit cs \<Longrightarrow>
   digits_from (int n) cs = Some (int (foldl (\<lambda>acc c. acc * 10 + (of_char c - 48)) n cs))"
proof (induction cs arbitrary: n)
  case Nil
  then show ?case by simp
next
  case (Cons c cs)
  then have c: "is_digit c" and cs: "list_all is_digit cs" by simp_all
  from c have "int n * 10 + digit_val c = int (n * 10 + (of_char c - 48))"
    by (simp add: is_digit_def digit_val_def Let_def)
  with Cons.IH [OF cs, of "n * 10 + (of_char c - 48)"] c show ?case by simp
qed

lemma rstrip_digits: "list_all is_digit x \<Longrightarrow> rstrip x = x"
proof (cases x rule: rev_cases)
  case Nil
  then show ?thesis by (simp add: rstrip_def)
next
  case (snoc ys y)
  assume "list_all is_digit x"
  with snoc have "\<not> py_isspace y" by (simp add: is_digit_not_space)
  with snoc show ?thesis by (simp add: rstrip_def)
qed

lemma is_digit_not_int_space: "is_digit c \<Longrightarrow> \<not> int_isspace c"
  by (auto simp: is_digit_def int_isspace_def Let_def)

lemma int_strip_digits: "list_all is_digit x \<Longrightarrow> int_strip x = x"
proof (cases x rule: rev_cases)
  case Nil
  then show ?thesis by (simp add: int_strip_def)
next
  case (snoc ys y)
  assume d: "list_all is_digit x"
  with snoc have "\<not> int_isspace y" by (simp add: is_digit_not_int_space)
  with snoc have "rev (dropWhile int_isspace (rev x)) = x" by simp
  with d show ?thesis
    by (cases x) (simp_all add: int_strip_def is_digit_not_int_space)
qed

lemma filter_digits: "list_all is_digit x \<Longrightarrow> filter is_digit x = x"
  by (induction x) simp_all

lemma py_int_digits:
  assumes "x \<noteq> []" and "list_all is_digit x" and "\<not> too_many_digits lim (length x)"
  shows "py_int lim x = Some (int (nat_of_digits x))"
proof -
  from assms obtain c cs where x: "x = c # cs" by (cases x) auto
  with assms have c: "is_digit c" and cs: "list_all is_digit cs" by simp_all
  have v: "digit_val c = int (of_char c - 48)"
    using c by (simp add: is_digit_def digit_val_def Let_def)
  have s: "int_strip (c # cs) = c # cs"
    using int_strip_digits [OF assms(2)] x by simp
  have n: "\<not> too_many_digits lim (length (filter is_digit (c # cs)))"
    using assms(3) filter_digits [OF assms(2)] x by simp
  have "decimal lim (c # cs) = digits_from (digit_val c) cs"
    unfolding decimal_def using n c by (simp del: filter.simps)
  then show ?thesis
    using is_digit_not_sign [OF c] digits_from_digits [OF cs, of "of_char c - 48"]
    by (simp add: py_int_def s x v nat_of_digits_def)
qed

lemma py_int_too_many_digits:
  assumes "list_all is_digit x" and "too_many_digits lim (length x)"
  shows "py_int lim x = None"
proof -
  from assms have "x \<noteq> []" by (auto simp: too_many_digits_def)
  then obtain c cs where x: "x = c # cs" by (cases x) auto
  with assms have c: "is_digit c" by simp
  have s: "int_strip (c # cs) = c # cs"
    using int_strip_digits [OF assms(1)] x by simp
  have "decimal lim (c # cs) = None"
    unfolding decimal_def using assms(2) filter_digits [OF assms(1)] x by (simp del: filter.simps)
  then show ?thesis
    using is_digit_not_sign [OF c] by (simp add: py_int_def s x)
qed

lemma weekday_hours_of_digits:
  "\<forall>x\<in>set xs. list_all is_digit x \<and> \<not> too_many_digits lim (length x) \<Longrightarrow>
   weekday_hours_of lim xs = Inr (map (\<lambda>x. if x = [] then 8 else int (nat_of_digits x)) xs)"
  by (induction xs) (auto simp: py_int_digits)

section \<open>Properties of \<open>process_csv\<close>\<close>

lemma length_weekday_hours_of:
  "weekday_hours_of lim xs = Inr hs \<Longrightarrow> length hs = length xs"
  by (induction xs arbitrary: hs) (auto split: option.splits sum.splits if_splits)

lemma weekday_hours_of_ValueError:
  "x \<in> set xs \<Longrightarrow> x \<noteq> [] \<Longrightarrow> py_int lim x = None \<Longrightarrow> weekday_hours_of lim xs = Inl ValueError"
proof (induction xs)
  case Nil
  then show ?case by simp
next
  case (Cons y ys)
  show ?case
  proof (cases "x = y")
    case True
    with Cons.prems show ?thesis by simp
  next
    case False
    with Cons have "weekday_hours_of lim ys = Inl ValueError" by simp
    then show ?thesis by (simp split: option.splits)
  qed
qed

lemma process_lines_append:
  "process_lines E (xs @ ys) m =
     (case process_lines E xs m of Inl ex \<Rightarrow> Inl ex | Inr m' \<Rightarrow> process_lines E ys m')"
  by (induction xs arbitrary: m) (auto split: sum.splits verdict.splits)

lemma process_lines_untouched:
  assumes "process_lines E ls m = Inr r"
    and "list_all (\<lambda>l. case process_line E l of Inr (Store k' h) \<Rightarrow> k' \<noteq> k | _ \<Rightarrow> True) ls"
  shows "r k = m k"
  using assms
  by (induction ls arbitrary: m) (auto split: sum.splits verdict.splits)

lemma parts_of_record:
  assumes "list_all py_isspace ws"
    and "CHR '','' \<notin> set date"
    and "list_all (list_all is_digit) [a, b, c, d, e]"
  shows "py_split CHR '','' (rstrip (date @ '','' @ a @ '','' @ b @ '','' @ c @ '','' @ d @ '','' @ e @ ws))
         = [date, a, b, c, d, e]"
proof -
  have nc: "CHR '','' \<notin> set x" if "list_all is_digit x" for x
    using that by (auto simp: list_all_iff dest: is_digit_not_comma)
  let ?s = "date @ '','' @ a @ '','' @ b @ '','' @ c @ '','' @ d @ '','' @ e"
  have last: "?s = [] \<or> \<not> py_isspace (last ?s)"
    using assms(3) by (cases e rule: rev_cases) (auto simp: comma_not_space is_digit_not_space)
  have "rstrip (?s @ ws) = ?s"
    by (rule rstrip_append_ws [OF assms(1) last])
  moreover have "py_split CHR '','' ?s = [date, a, b, c, d, e]"
    using assms(2,3) by (simp add: py_split_field py_split_no_sep nc)
  ultimately show ?thesis by simp
qed

lemma process_line_sample_env:
  "process_line (sample_env ls ov) l = process_line (sample_env [] {||}) l"
  by (simp add: process_line_def sample_env_def Let_def split: option.splits)

lemma sample_line_header:
  "process_line (sample_env ls ov) ''date,M,T,W,R,F\<newline>'' = Inr (Skip Malformed_date)"
proof -
  have "process_line (sample_env [] {||}) ''date,M,T,W,R,F\<newline>'' = Inr (Skip Malformed_date)"
    by code_simp
  then show ?thesis by (subst process_line_sample_env)
qed

lemma sample_line_jan_08:
  "process_line (sample_env ls ov) ''2023-01-08,1,2,3,4,5\<newline>''
     = Inr (Store (2023, 1, 8) [1, 2, 3, 4, 5])"
proof -
  have "process_line (sample_env [] {||}) ''2023-01-08,1,2,3,4,5\<newline>''
     = Inr (Store (2023, 1, 8) [1, 2, 3, 4, 5])"
    by code_simp
  then show ?thesis by (subst process_line_sample_env)
qed

lemma sample_date_jan_01:
  "strptime (sample_env ls ov) ''2023-01-01'' (DATE_FORMAT (sample_env ls ov)) = Some (2023, 1, 1)
   \<and> weekday (sample_env ls ov) (2023, 1, 1) = 6"
proof -
  have "py_strptime ''2023-01-01'' ''%Y-%m-%d'' = Some (2023, 1, 1)" by code_simp
  moreover have "py_weekday (2023, 1, 1) = 6" by code_simp
  ultimately show ?thesis by (simp add: sample_env_def)
qed

lemma sample_line_jan_01_again:
  "process_line (sample_env ls ov) ''2023-01-01,1,2,3,4,5\<newline>''
     = Inr (Store (2023, 1, 1) [1, 2, 3, 4, 5])"
proof -
  have "process_line (sample_env [] {||}) ''2023-01-01,1,2,3,4,5\<newline>''
     = Inr (Store (2023, 1, 1) [1, 2, 3, 4, 5])"
    by code_simp
  then show ?thesis by (subst process_line_sample_env)
qed

lemma sample_line_jan_01_5:
  "process_line (sample_env ls ov) ''2023-01-01,,5,,,\<newline>''
     = Inr (Store (2023, 1, 1) [8, 5, 8, 8, 8])"
proof -
  have "process_line (sample_env [] {||}) ''2023-01-01,,5,,,\<newline>''
     = Inr (Store (2023, 1, 1) [8, 5, 8, 8, 8])"
    by code_simp
  then show ?thesis by (subst process_line_sample_env)
qed

lemma sample_line_long_field:
  "process_line (sample_env ls ov) (''2023-01-01,'' @ replicate 4301 CHR ''7'' @ '',,,,\<newline>'')
     = Inl ValueError"
proof -
  let ?a = "replicate 4301 CHR ''7''"
  let ?E = "sample_env ls ov"
  have seven: "is_digit CHR ''7''"
    by code_simp
  then have digit: "list_all is_digit ?a"
    by (simp add: list_all_iff)
  have digits: "list_all (list_all is_digit) [?a, [], [], [], []]"
    using digit by simp
  have ws: "list_all py_isspace ''\<newline>''"
    by code_simp
  have shape: "''2023-01-01,'' @ ?a @ '',,,,\<newline>''
      = ''2023-01-01'' @ '','' @ ?a @ '','' @ [] @ '','' @ [] @ '','' @ [] @ '','' @ [] @ ''\<newline>''"
    by simp
  have parts: "py_split CHR '','' (rstrip (''2023-01-01,'' @ ?a @ '',,,,\<newline>''))
      = [''2023-01-01'', ?a, [], [], [], []]"
    unfolding shape by (rule parts_of_record [OF ws _ digits]) simp
  have "py_int 4300 ?a = None"
    by (rule py_int_too_many_digits [OF digit]) (simp add: too_many_digits_def)
  then have "weekday_hours_of (int_max_str_digits ?E) [?a, [], [], [], []] = Inl ValueError"
    by (intro weekday_hours_of_ValueError [of ?a]) (simp_all add: sample_env_def)
  then have "process_line ?E l = Inl ValueError"
    if "py_split CHR '','' (rstrip l) = [''2023-01-01'', ?a, [], [], [], []]" for l
    using sample_date_jan_01 [of ls ov] that
    by (simp add: process_line_def del: weekday_hours_of.simps)
  from this [OF parts] show ?thesis .
qed

text \<open>
  C1, as the code has it: a line \<open>date,a,b,c,d,e\<close> (followed by its line end) whose date
  field parses to a Sunday and whose hour fields are each empty or a string of decimal
  digits within the interpreter's digit limit is stored under that date with the five
  hours, an empty field counting as 8 and any other as the number it writes. In the
  file, the lines before it are processed first, the record is added to their mapping,
  and the lines after it go on from there; so the mapping that \<open>process_csv\<close> returns
  holds the record under that date unless a later line stores the same date again.
\<close>

theorem process_csv_valid_line:
  assumes fl: "file_lines E infile = Inr (pre @ l # post)"
    and shape: "l = date @ '','' @ a @ '','' @ b @ '','' @ c @ '','' @ d @ '','' @ e @ ws"
    and ws: "list_all py_isspace ws"
    and nocomma: "CHR '','' \<notin> set date"
    and parse: "strptime E date (DATE_FORMAT E) = Some dt"
    and sunday: "weekday E dt = 6"
    and digits: "list_all (list_all is_digit) [a, b, c, d, e]"
    and short: "list_all (\<lambda>x. \<not> too_many_digits (int_max_str_digits E) (length x)) [a, b, c, d, e]"
    and hrs: "hrs = map (\<lambda>x. if x = [] then 8 else int (nat_of_digits x)) [a, b, c, d, e]"
  shows "process_line E l = Inr (Store dt hrs)
     \<and> process_csv E infile =
         (case process_lines E pre Map.empty of
            Inl ex \<Rightarrow> Inl ex
          | Inr m \<Rightarrow> process_lines E post (m(dt \<mapsto> hrs)))
     \<and> (\<forall>r. process_csv E infile = Inr r
            \<and> list_all (\<lambda>l'. case process_line E l' of Inr (Store k h) \<Rightarrow> k \<noteq> dt | _ \<Rightarrow> True) post
          \<longrightarrow> r dt = Some hrs)"
proof -
  have parts: "py_split CHR '','' (rstrip l) = [date, a, b, c, d, e]"
    unfolding shape by (rule parts_of_record [OF ws nocomma digits])
  have hours: "weekday_hours_of (int_max_str_digits E) [a, b, c, d, e] = Inr hrs"
    unfolding hrs using digits short by (intro weekday_hours_of_digits) (simp add: list_all_iff)
  have len: "length hrs = 5"
    by (simp add: hrs)
  have line: "process_line E l = Inr (Store dt hrs)"
    by (simp add: process_line_def parts parse sunday hours len del: weekday_hours_of.simps)
  have csv: "process_csv E infile =
         (case process_lines E pre Map.empty of
            Inl ex \<Rightarrow> Inl ex
          | Inr m \<Rightarrow> process_lines E post (m(dt \<mapsto> hrs)))"
    by (simp add: process_csv_def fl process_lines_append line split: sum.splits)
  have final: "r dt = Some hrs"
    if r: "process_csv E infile = Inr r"
      and later: "list_all (\<lambda>l'. case process_line E l' of Inr (Store k h) \<Rightarrow> k \<noteq> dt | _ \<Rightarrow> True) post"
    for r
  proof -
    from r csv obtain m where "process_lines E post (m(dt \<mapsto> hrs)) = Inr r"
      by (auto split: sum.splits)
    from process_lines_untouched [OF this later] show ?thesis by simp
  qed
  from line csv final show ?thesis by blast
qed

theorem process_csv_valid_line_witness:
  "process_line (sample_env [''date,M,T,W,R,F\<newline>'', ''2023-01-01,,5,,,\<newline>'', ''2023-01-08,1,2,3,4,5\<newline>''] {||})
      ''2023-01-01,,5,,,\<newline>''
     = Inr (Store (2023, 1, 1) [8, 5, 8, 8, 8])
   \<and> (\<exists>r. process_csv (sample_env [''date,M,T,W,R,F\<newline>'', ''2023-01-01,,5,,,\<newline>'', ''2023-01-08,1,2,3,4,5\<newline>''] {||})
             ''hours.csv'' = Inr r
          \<and> r (2023, 1, 1) = Some [8, 5, 8, 8, 8])"
proof -
  define E :: "ymd env" where
    "E = sample_env [''date,M,T,W,R,F\<newline>'', ''2023-01-01,,5,,,\<newline>'', ''2023-01-08,1,2,3,4,5\<newline>''] {||}"
  have fl: "file_lines E ''hours.csv''
      = Inr ([''date,M,T,W,R,F\<newline>''] @ ''2023-01-01,,5,,,\<newline>'' # [''2023-01-08,1,2,3,4,5\<newline>''])"
    by (simp add: E_def sample_env_def)
  have shape: "''2023-01-01,,5,,,\<newline>''
      = ''2023-01-01'' @ '','' @ [] @ '','' @ ''5'' @ '','' @ [] @ '','' @ [] @ '','' @ [] @ ''\<newline>''"
    by simp
  have ws: "list_all py_isspace ''\<newline>''"
    by code_simp
  have nocomma: "CHR '','' \<notin> set ''2023-01-01''"
    by simp
  have parse: "strptime E ''2023-01-01'' (DATE_FORMAT E) = Some (2023, 1, 1)"
    and sunday: "weekday E (2023, 1, 1) = 6"
    using sample_date_jan_01 by (simp_all add: E_def)
  have digits: "list_all (list_all is_digit) [[], ''5'', [], [], []]"
    by code_simp
  have short: "list_all (\<lambda>x. \<not> too_many_digits (int_max_str_digits E) (length x)) [[], ''5'', [], [], []]"
    by (simp add: E_def sample_env_def too_many_digits_def)
  have hrs: "[8, 5, 8, 8, 8] = map (\<lambda>x. if x = [] then 8 else int (nat_of_digits x)) [[], ''5'', [], [], []]"
    by code_simp
  have l1: "process_line E ''date,M,T,W,R,F\<newline>'' = Inr (Skip Malformed_date)"
    unfolding E_def by (rule sample_line_header)
  have l3: "process_line E ''2023-01-08,1,2,3,4,5\<newline>'' = Inr (Store (2023, 1, 8) [1, 2, 3, 4, 5])"
    unfolding E_def by (rule sample_line_jan_08)
  have later: "list_all (\<lambda>l'. case process_line E l' of Inr (Store k h) \<Rightarrow> k \<noteq> (2023, 1, 1) | _ \<Rightarrow> True)
      [''2023-01-08,1,2,3,4,5\<newline>'']"
    by (simp add: l3)
  note inst = process_csv_valid_line [OF fl shape ws nocomma parse sunday digits short hrs]
  have line: "process_line E ''2023-01-01,,5,,,\<newline>'' = Inr (Store (2023, 1, 1) [8, 5, 8, 8, 8])"
    by (rule conjunct1 [OF inst])
  have pre: "process_lines E [''date,M,T,W,R,F\<newline>''] Map.empty = Inr Map.empty"
    by (simp only: process_lines.simps l1 sum.case verdict.case)
  have post: "process_lines E [''2023-01-08,1,2,3,4,5\<newline>''] m
      = Inr (m((2023, 1, 8) \<mapsto> [1, 2, 3, 4, 5]))" for m
    by (simp only: process_lines.simps l3 sum.case verdict.case)
  have csv: "process_csv E ''hours.csv''
      = Inr ((Map.empty((2023, 1, 1) \<mapsto> [8, 5, 8, 8, 8]))((2023, 1, 8) \<mapsto> [1, 2, 3, 4, 5]))"
    by (simp only: conjunct1 [OF conjunct2 [OF inst]] pre post sum.case)
  have "(((Map.empty :: ymd \<rightharpoonup> int list)((2023, 1, 1) \<mapsto> [8, 5, 8, 8, 8]))((2023, 1, 8) \<mapsto> [1, 2, 3, 4, 5])) (2023, 1, 1)
      = Some [8, 5, 8, 8, 8]"
    by (rule mp [OF spec [OF conjunct2 [OF conjunct2 [OF inst]]] conjI [OF csv later]])
  with csv have "\<exists>r. process_csv E ''hours.csv'' = Inr r \<and> r (2023, 1, 1) = Some [8, 5, 8, 8, 8]"
    by (intro exI conjI)
  with line show ?thesis
    unfolding E_def by (rule conjI)
qed

lemma process_line_Store_sunday:
  "process_line E l = Inr (Store k h) \<Longrightarrow> weekday E k = 6"
  by (auto simp: process_line_def Let_def split: option.splits sum.splits if_splits)

lemma process_lines_sundays:
  assumes "process_lines E ls m = Inr r" and "k \<in> dom r" and "\<And>j. j \<in> dom m \<Longrightarrow> weekday E j = 6"
  shows "weekday E k = 6"
  using assms
proof (induction ls arbitrary: m)
  case Nil
  then show ?case by auto
next
  case (Cons l ls)
  show ?case
  proof (cases "process_line E l")
    case (Inl ex)
    with Cons.prems(1) show ?thesis by simp
  next
    case (Inr v)
    show ?thesis
    proof (cases v)
      case (Skip w)
      with Inr Cons.prems have "process_lines E ls m = Inr r" by simp
      from Cons.IH [OF this Cons.prems(2)] Cons.prems(3) show ?thesis by blast
    next
      case (Store d h)
      with Inr Cons.prems have run: "process_lines E ls (m(d \<mapsto> h)) = Inr r" by simp
      from Store Inr have "weekday E d = 6" by (auto dest: process_line_Store_sunday)
      with Cons.prems(3) have "\<And>j. j \<in> dom (m(d \<mapsto> h)) \<Longrightarrow> weekday E j = 6" by auto
      from Cons.IH [OF run Cons.prems(2) this] show ?thesis .
    qed
  qed
qed

lemma process_line_rejected:
  assumes "length (py_split CHR '','' (rstrip l)) \<noteq> 6
     \<or> strptime E (hd (py_split CHR '','' (rstrip l))) (DATE_FORMAT E) = None
     \<or> (\<exists>d. strptime E (hd (py_split CHR '','' (rstrip l))) (DATE_FORMAT E) = Some d \<and> weekday E d \<noteq> 6)"
  shows "\<exists>w. process_line E l = Inr (Skip w)"
  using assms by (auto simp: process_line_def Let_def)

lemma sample_line_jan_01:
  "process_line (sample_env ls ov) ''2023-01-01,,,,,\<newline>''
     = Inr (Store (2023, 1, 1) [8, 8, 8, 8, 8])"
proof -
  have "process_line (sample_env [] {||}) ''2023-01-01,,,,,\<newline>''
     = Inr (Store (2023, 1, 1) [8, 8, 8, 8, 8])"
    by code_simp
  then show ?thesis by (subst process_line_sample_env)
qed

text \<open>
  C1 as the claim states it, that \<open>process_csv\<close> maps the date of every such line to the
  hours of that line, fails. When a later line of the file has the same date, the
  returned mapping holds the hours of the later line. And a field of 4301 digits is a
  non-negative integer string that \<open>int\<close> refuses under the default digit limit.
\<close>

theorem process_csv_valid_line_counterexample:
  "strptime (sample_env [''2023-01-01,,5,,,\<newline>'', ''2023-01-01,1,2,3,4,5\<newline>''] {||})
       ''2023-01-01'' (DATE_FORMAT (sample_env [''2023-01-01,,5,,,\<newline>'', ''2023-01-01,1,2,3,4,5\<newline>''] {||}))
     = Some (2023, 1, 1)
   \<and> weekday (sample_env [''2023-01-01,,5,,,\<newline>'', ''2023-01-01,1,2,3,4,5\<newline>''] {||}) (2023, 1, 1) = 6
   \<and> list_all (list_all is_digit) [[], ''5'', [], [], []]
   \<and> (\<exists>r. process_csv (sample_env [''2023-01-01,,5,,,\<newline>'', ''2023-01-01,1,2,3,4,5\<newline>''] {||}) ''hours.csv''
            = Inr r
          \<and> r (2023, 1, 1) = Some [1, 2, 3, 4, 5]
          \<and> r (2023, 1, 1) \<noteq> Some [8, 5, 8, 8, 8])
   \<and> list_all is_digit (replicate 4301 CHR ''7'')
   \<and> process_csv (sample_env [''2023-01-01,'' @ replicate 4301 CHR ''7'' @ '',,,,\<newline>''] {||} :: ymd env)
        ''hours.csv'' = Inl ValueError"
proof -
  define E :: "ymd env" where
    "E = sample_env [''2023-01-01,,5,,,\<newline>'', ''2023-01-01,1,2,3,4,5\<newline>''] {||}"
  have date: "strptime E ''2023-01-01'' (DATE_FORMAT E) = Some (2023, 1, 1)" "weekday E (2023, 1, 1) = 6"
    using sample_date_jan_01 by (simp_all add: E_def)
  have digits: "list_all (list_all is_digit) [[], ''5'', [], [], []]"
    by code_simp
  have l1: "process_line E ''2023-01-01,,5,,,\<newline>'' = Inr (Store (2023, 1, 1) [8, 5, 8, 8, 8])"
    unfolding E_def by (rule sample_line_jan_01_5)
  have l2: "process_line E ''2023-01-01,1,2,3,4,5\<newline>'' = Inr (Store (2023, 1, 1) [1, 2, 3, 4, 5])"
    unfolding E_def by (rule sample_line_jan_01_again)
  have fl: "file_lines E ''hours.csv'' = Inr [''2023-01-01,,5,,,\<newline>'', ''2023-01-01,1,2,3,4,5\<newline>'']"
    by (simp add: E_def sample_env_def)
  have csv: "process_csv E ''hours.csv''
      = Inr ((Map.empty((2023, 1, 1) \<mapsto> [8, 5, 8, 8, 8]))((2023, 1, 1) \<mapsto> [1, 2, 3, 4, 5]))"
    unfolding process_csv_def fl
    by (simp only: process_lines.simps l1 l2 sum.case verdict.case)
  have dup: "\<exists>r. process_csv E ''hours.csv'' = Inr r
          \<and> r (2023, 1, 1) = Some [1, 2, 3, 4, 5]
          \<and> r (2023, 1, 1) \<noteq> Some [8, 5, 8, 8, 8]"
    unfolding csv by simp
  have seven: "is_digit CHR ''7''"
    by code_simp
  then have long: "list_all is_digit (replicate 4301 CHR ''7'')"
    by (simp add: list_all_iff)
  have "file_lines (sample_env [''2023-01-01,'' @ replicate 4301 CHR ''7'' @ '',,,,\<newline>''] {||} :: ymd env) ''hours.csv''
      = Inr [''2023-01-01,'' @ replicate 4301 CHR ''7'' @ '',,,,\<newline>'']"
    by (simp add: sample_env_def)
  then have raised: "process_csv (sample_env [''2023-01-01,'' @ replicate 4301 CHR ''7'' @ '',,,,\<newline>''] {||} :: ymd env)
        ''hours.csv'' = Inl ValueError"
    unfolding process_csv_def
    by (simp only: process_lines.simps sample_line_long_field sum.case)
  from date digits dup long raised show ?thesis
    unfolding E_def by (intro conjI)
qed

text \<open>
  C2: the claim asks that a line of six fields with a Sunday date and an hour field that
  is neither empty nor an integer be skipped. The code does not do that: \<open>int\<close> raises
  \<open>ValueError\<close> on the field, nothing in \<open>process_csv\<close> catches it, and the exception
  ends \<open>process_csv\<close>, whatever lines follow.
\<close>

theorem process_csv_non_integer_hour_raises:
  assumes "py_split CHR '','' (rstrip l) = [date, a, b, c, d, e]"
    and "strptime E date (DATE_FORMAT E) = Some dt"
    and "weekday E dt = 6"
    and "x \<in> set [a, b, c, d, e]" and "x \<noteq> []" and "py_int (int_max_str_digits E) x = None"
    and "file_lines E infile = Inr (pre @ l # post)"
    and "process_lines E pre Map.empty = Inr m"
  shows "process_line E l = Inl ValueError \<and> process_csv E infile = Inl ValueError"
proof -
  have "weekday_hours_of (int_max_str_digits E) [a, b, c, d, e] = Inl ValueError"
    by (rule weekday_hours_of_ValueError [OF assms(4-6)])
  then have line: "process_line E l = Inl ValueError"
    by (simp add: process_line_def assms(1-3) del: weekday_hours_of.simps)
  then have "process_csv E infile = Inl ValueError"
    by (simp add: process_csv_def assms(7,8) process_lines_append)
  with line show ?thesis ..
qed

theorem process_csv_non_integer_hour_raises_witness:
  "process_line (sample_env [''2023-01-01,abc,,,,\<newline>'', ''2023-01-08,,,,,\<newline>''] {|(2023, 1, 8)|})
       ''2023-01-01,abc,,,,\<newline>'' = Inl ValueError
   \<and> process_csv (sample_env [''2023-01-01,abc,,,,\<newline>'', ''2023-01-08,,,,,\<newline>''] {|(2023, 1, 8)|})
       ''hours.csv'' = Inl ValueError
   \<and> run (sample_env [''2023-01-01,abc,,,,\<newline>'', ''2023-01-08,,,,,\<newline>''] {|(2023, 1, 8)|}) sample_args
       = ([New_Time_Reporter ''u'' ''p'', Get_overdue_weeks, Process_csv ''hours.csv''], Raises ValueError)"
proof -
  define E :: "ymd env" where
    "E = sample_env [''2023-01-01,abc,,,,\<newline>'', ''2023-01-08,,,,,\<newline>''] {|(2023, 1, 8)|}"
  have parts: "py_split CHR '','' (rstrip ''2023-01-01,abc,,,,\<newline>'') = [''2023-01-01'', ''abc'', [], [], [], []]"
    by code_simp
  have parse: "strptime E ''2023-01-01'' (DATE_FORMAT E) = Some (2023, 1, 1)"
    and sunday: "weekday E (2023, 1, 1) = 6"
    using sample_date_jan_01 by (simp_all add: E_def)
  have field: "''abc'' \<in> set [''abc'', [], [], [], []]" "''abc'' \<noteq> []"
    by simp_all
  have bad: "py_int (int_max_str_digits E) ''abc'' = None"
    unfolding E_def by code_simp
  have fl: "file_lines E ''hours.csv'' = Inr ([] @ ''2023-01-01,abc,,,,\<newline>'' # [''2023-01-08,,,,,\<newline>''])"
    by (simp add: E_def sample_env_def)
  have pre: "process_lines E [] Map.empty = Inr Map.empty"
    by simp
  note inst = process_csv_non_integer_hour_raises [OF parts parse sunday field bad fl pre]
  have "run (sample_env [''2023-01-01,abc,,,,\<newline>'', ''2023-01-08,,,,,\<newline>''] {|(2023, 1, 8)|}) sample_args
       = ([New_Time_Reporter ''u'' ''p'', Get_overdue_weeks, Process_csv ''hours.csv''], Raises ValueError)"
    by code_simp
  with inst show ?thesis
    unfolding E_def by (intro conjI) (erule conjunct1, erule conjunct2, assumption)
qed

text \<open>
  C7: a line that does not split into exactly six fields, or whose date field does not
  parse, or whose date is not a Sunday, is skipped with a warning: the file is processed
  as if the line were not there, so the line adds no key and the lines after it are
  still read. Every key of the mapping that \<open>process_csv\<close> returns is a Sunday, and a
  file without lines gives the empty mapping, not an error.
\<close>

theorem process_csv_rejected_line:
  "(length (py_split CHR '','' (rstrip l)) \<noteq> 6
      \<or> strptime E (hd (py_split CHR '','' (rstrip l))) (DATE_FORMAT E) = None
      \<or> (\<exists>d. strptime E (hd (py_split CHR '','' (rstrip l))) (DATE_FORMAT E) = Some d \<and> weekday E d \<noteq> 6)
    \<longrightarrow> (\<exists>w. process_line E l = Inr (Skip w))
        \<and> process_lines E (pre @ l # post) m = process_lines E (pre @ post) m
        \<and> (file_lines E infile = Inr (pre @ l # post)
             \<longrightarrow> process_csv E infile = process_lines E (pre @ post) Map.empty))
   \<and> (process_csv E infile = Inr r \<and> k \<in> dom r \<longrightarrow> weekday E k = 6)
   \<and> (file_lines E infile = Inr [] \<longrightarrow> process_csv E infile = Inr Map.empty)"
proof (intro conjI impI)
  assume "length (py_split CHR '','' (rstrip l)) \<noteq> 6
      \<or> strptime E (hd (py_split CHR '','' (rstrip l))) (DATE_FORMAT E) = None
      \<or> (\<exists>d. strptime E (hd (py_split CHR '','' (rstrip l))) (DATE_FORMAT E) = Some d \<and> weekday E d \<noteq> 6)"
  then obtain w where w: "process_line E l = Inr (Skip w)"
    using process_line_rejected by blast
  then show "\<exists>w. process_line E l = Inr (Skip w)" ..
  from w show skip: "process_lines E (pre @ l # post) m = process_lines E (pre @ post) m"
    by (simp add: process_lines_append split: sum.splits)
  assume "file_lines E infile = Inr (pre @ l # post)"
  with w show "process_csv E infile = process_lines E (pre @ post) Map.empty"
    by (simp add: process_csv_def process_lines_append split: sum.splits)
next
  assume "process_csv E infile = Inr r \<and> k \<in> dom r"
  then obtain ls where "process_lines E ls Map.empty = Inr r" and "k \<in> dom r"
    by (auto simp: process_csv_def split: sum.splits)
  then show "weekday E k = 6"
    by (rule process_lines_sundays) simp
next
  assume "file_lines E infile = Inr []"
  then show "process_csv E infile = Inr Map.empty"
    by (simp add: process_csv_def)
qed

theorem process_csv_rejected_line_witness:
  "(\<exists>w. process_line (sample_env [''2023-01-02,,,,,\<newline>'', ''2023-01-01,,,,,\<newline>''] {||})
           ''2023-01-02,,,,,\<newline>'' = Inr (Skip w))
   \<and> process_csv (sample_env [''2023-01-02,,,,,\<newline>'', ''2023-01-01,,,,,\<newline>''] {||}) ''hours.csv''
       = Inr [(2023, 1, 1) \<mapsto> [8, 8, 8, 8, 8]]
   \<and> weekday (sample_env [''2023-01-02,,,,,\<newline>'', ''2023-01-01,,,,,\<newline>''] {||}) (2023, 1, 1) = 6
   \<and> process_csv (sample_env [] {||}) ''hours.csv'' = Inr Map.empty"
proof -
  define E :: "ymd env" where
    "E = sample_env [''2023-01-02,,,,,\<newline>'', ''2023-01-01,,,,,\<newline>''] {||}"
  have monday: "strptime E (hd (py_split CHR '','' (rstrip ''2023-01-02,,,,,\<newline>''))) (DATE_FORMAT E)
        = Some (2023, 1, 2) \<and> weekday E (2023, 1, 2) \<noteq> 6"
    unfolding E_def by code_simp
  then have rejected: "length (py_split CHR '','' (rstrip ''2023-01-02,,,,,\<newline>'')) \<noteq> 6
      \<or> strptime E (hd (py_split CHR '','' (rstrip ''2023-01-02,,,,,\<newline>''))) (DATE_FORMAT E) = None
      \<or> (\<exists>d. strptime E (hd (py_split CHR '','' (rstrip ''2023-01-02,,,,,\<newline>''))) (DATE_FORMAT E) = Some d
            \<and> weekday E d \<noteq> 6)"
    by blast
  have fl: "file_lines E ''hours.csv'' = Inr ([] @ ''2023-01-02,,,,,\<newline>'' # [''2023-01-01,,,,,\<newline>''])"
    by (simp add: E_def sample_env_def)
  note skipped = process_csv_rejected_line
    [of "''2023-01-02,,,,,\<newline>''" E "[]" "[''2023-01-01,,,,,\<newline>'']" Map.empty "''hours.csv''",
     THEN conjunct1, THEN mp, OF rejected]
  have w: "\<exists>w. process_line E ''2023-01-02,,,,,\<newline>'' = Inr (Skip w)"
    by (rule conjunct1 [OF skipped])
  have "process_csv E ''hours.csv'' = process_lines E ([] @ [''2023-01-01,,,,,\<newline>'']) Map.empty"
    by (rule mp [OF conjunct2 [OF conjunct2 [OF skipped]] fl])
  also have "\<dots> = Inr [(2023, 1, 1) \<mapsto> [8, 8, 8, 8, 8]]"
    unfolding E_def by (simp only: append_Nil process_lines.simps sample_line_jan_01 sum.case verdict.case)
  finally have csv: "process_csv E ''hours.csv'' = Inr [(2023, 1, 1) \<mapsto> [8, 8, 8, 8, 8]]" .
  have key: "(2023, 1, 1) \<in> dom [(2023 :: int, 1 :: int, 1 :: int) \<mapsto> [8, 8, 8, 8, 8 :: int]]"
    by simp
  have sunday: "weekday E (2023, 1, 1) = 6"
    by (rule process_csv_rejected_line
          [of _ E _ _ _ "''hours.csv''" "[(2023, 1, 1) \<mapsto> [8, 8, 8, 8, 8]]" "(2023, 1, 1)",
           THEN conjunct2, THEN conjunct1, THEN mp, OF conjI [OF csv key]])
  have no_lines: "file_lines (sample_env [] {||} :: ymd env) ''hours.csv'' = Inr []"
    by (simp add: sample_env_def)
  have empty: "process_csv (sample_env [] {||} :: ymd env) ''hours.csv'' = Inr Map.empty"
    by (rule process_csv_rejected_line
          [of _ "sample_env [] {||}" _ _ _ "''hours.csv''",
           THEN conjunct2, THEN conjunct2, THEN mp, OF no_lines])
  from w csv sunday empty show ?thesis
    unfolding E_def by (intro conjI)
qed

text \<open>
  C10: in \<open>process_csv\<close>, the rejection for a wrong number of hour fields cannot be
  reached. The hour list built from fields 2 to 6 of a line of six fields has exactly
  five entries, so no line, whatever the library does, is skipped with the warning
  \<open>expected 5 workdays\<close>.
\<close>

theorem workday_count_check_never_fires:
  "(length parts = 6 \<longrightarrow> weekday_hours_of lim (take 5 (drop 1 parts)) = Inr hs \<longrightarrow> length hs = 5)
   \<and> process_line E l \<noteq> Inr (Skip (Expected_5_workdays n))"
proof
  show "length parts = 6 \<longrightarrow> weekday_hours_of lim (take 5 (drop 1 parts)) = Inr hs \<longrightarrow> length hs = 5"
    by (auto dest: length_weekday_hours_of)
next
  have "length hs' = 5"
    if "length (py_split CHR '','' (rstrip l)) = 6"
      and "weekday_hours_of (int_max_str_digits E) (take 5 (drop 1 (py_split CHR '','' (rstrip l)))) = Inr hs'"
    for hs'
    using that by (auto dest: length_weekday_hours_of)
  then show "process_line E l \<noteq> Inr (Skip (Expected_5_workdays n))"
    by (auto simp: process_line_def Let_def split: option.splits sum.splits if_splits)
qed

theorem workday_count_check_never_fires_witness:
  "length (py_split CHR '','' ''2023-01-01,,5,,,'') = 6
   \<and> weekday_hours_of 4300 (take 5 (drop 1 (py_split CHR '','' ''2023-01-01,,5,,,''))) = Inr [8, 5, 8, 8, 8]
   \<and> length [8, 5, 8, 8, 8 :: int] = 5
   \<and> process_line (sample_env [] {||}) ''2023-01-01,,5,,,'' \<noteq> Inr (Skip (Expected_5_workdays 5))"
proof -
  have six: "length (py_split CHR '','' ''2023-01-01,,5,,,'') = 6"
    by code_simp
  have hs: "weekday_hours_of 4300 (take 5 (drop 1 (py_split CHR '','' ''2023-01-01,,5,,,''))) = Inr [8, 5, 8, 8, 8]"
    by code_simp
  from workday_count_check_never_fires
    [of "py_split CHR '','' ''2023-01-01,,5,,,''" 4300 "[8, 5, 8, 8, 8]" "sample_env [] {||}"
        "''2023-01-01,,5,,,''" 5]
    six hs
  show ?thesis by simp
qed

section \<open>Properties of \<open>run\<close>\<close>

lemma printed_append: "printed (xs @ ys) = printed xs @ printed ys"
  by (simp add: printed_def)

lemma visited_append: "visited (xs @ ys) = visited xs @ visited ys"
  by (simp add: visited_def)

lemma matched_append: "matched (xs @ ys) = matched xs @ matched ys"
  by (simp add: matched_def)

lemma submissions_append: "submissions (xs @ ys) = submissions xs @ submissions ys"
  by (simp add: submissions_def)

lemma completed_append: "completed (xs @ ys) = completed xs @ completed ys"
  by (simp add: completed_def)

lemmas trace_append =
  printed_append visited_append matched_append submissions_append completed_append

lemma trace_Cons:
  "printed (ev # tr) = (case ev of Print s \<Rightarrow> [s] | _ \<Rightarrow> []) @ printed tr"
  "visited (ev # tr) = (case ev of Log_overdue_date k \<Rightarrow> [k] | _ \<Rightarrow> []) @ visited tr"
  "matched (ev # tr) = (case ev of Log_found_match k h \<Rightarrow> [k] | _ \<Rightarrow> []) @ matched tr"
  "submissions (ev # tr) = (case ev of Submit k h \<Rightarrow> [(k, h)] | _ \<Rightarrow> []) @ submissions tr"
  "completed (ev # tr) = (case ev of Log_submitted k h \<Rightarrow> [k] | _ \<Rightarrow> []) @ completed tr"
  by (simp_all add: printed_def visited_def matched_def submissions_def completed_def)

lemma trace_Nil:
  "printed [] = []" "visited [] = []" "matched [] = []" "submissions [] = []" "completed [] = []"
  by (simp_all add: printed_def visited_def matched_def submissions_def completed_def)

lemma visited_logs: "visited (map Log_overdue_date ks) = ks"
  by (induction ks) (simp_all add: trace_Nil trace_Cons)

lemma others_logs:
  "printed (map Log_overdue_date ks) = []"
  "matched (map Log_overdue_date ks) = []"
  "submissions (map Log_overdue_date ks) = []"
  "completed (map Log_overdue_date ks) = []"
  "filter is_data_source (map Log_overdue_date ks) = []"
  by (induction ks) (simp_all add: trace_Nil trace_Cons is_data_source_def)

lemma Submit_in_submissions: "Submit k h \<in> set tr \<longleftrightarrow> (k, h) \<in> set (submissions tr)"
  by (induction tr) (auto simp: trace_Nil trace_Cons split: event.splits)

lemma data_source_events:
  assumes "list_all is_data_source evs"
  shows "printed evs = []" "visited evs = []" "matched evs = []"
    "submissions evs = []" "completed evs = []"
  using assms
  by (induction evs; simp add: trace_Nil trace_Cons is_data_source_def split: event.splits)+

lemma load_data_trace:
  "\<exists>evs. fst (load_data E a overdue tr) = tr @ evs \<and> list_all is_data_source evs"
  by (auto simp: load_data_def Let_def is_data_source_def split: option.splits)

lemma walk_no_match:
  "list_all (\<lambda>k. data k = None) keys \<Longrightarrow>
   walk E a data tr keys = (tr @ map Log_overdue_date keys, Returns)"
  by (induction keys arbitrary: tr) simp_all

lemma walk_first_match:
  assumes "list_all (\<lambda>k. data k = None) pre" and "data w = Some h"
  shows "walk E a data tr (pre @ w # post) =
     (let tr2 = tr @ map Log_overdue_date pre @ [Log_overdue_date w, Log_found_match w h]
      in case submit_week E a tr2 w h of
           (tr3, Some e) \<Rightarrow> (tr3, Raises e)
         | (tr3, None) \<Rightarrow>
             if once a then (tr3, Raises (SystemExit None)) else walk E a data tr3 post)"
  using assms
proof (induction pre arbitrary: tr)
  case Nil
  then show ?case
    by (simp add: submit_week_def Let_def split: option.splits)
next
  case (Cons k pre)
  then show ?case by simp
qed

lemma first_match_cases:
  obtains (none) "list_all (\<lambda>k. data k = None) keys"
  | (some) pre w h post where "keys = pre @ w # post"
      and "list_all (\<lambda>k. data k = None) pre" and "data w = Some h"
proof (cases "\<exists>k\<in>set keys. data k \<noteq> None")
  case True
  then obtain pre w post where "keys = pre @ w # post" "data w \<noteq> None" "\<forall>k\<in>set pre. \<not> data k \<noteq> None"
    using split_list_first_prop [of keys "\<lambda>k. data k \<noteq> None"] by blast
  then show ?thesis
    using some [of pre w post] by (auto simp: list_all_iff)
next
  case False
  then show ?thesis using none by (auto simp: list_all_iff)
qed

lemma submit_week_trace:
  "fst (submit_week E a tr k h) = tr
   \<or> fst (submit_week E a tr k h) = tr @ [Submit k h]
   \<or> fst (submit_week E a tr k h) = tr @ [Submit k h, Log_submitted k h]"
  by (simp add: submit_week_def split: option.splits)

lemma submit_week_views:
  "visited (fst (submit_week E a tr k h)) = visited tr"
  "matched (fst (submit_week E a tr k h)) = matched tr"
  "printed (fst (submit_week E a tr k h)) = printed tr"
  "filter is_data_source (fst (submit_week E a tr k h)) = filter is_data_source tr"
  by (simp_all add: submit_week_def trace_append trace_Cons trace_Nil is_data_source_def
      split: option.splits)

lemma submit_week_dryrun: "dryrun a \<Longrightarrow> submit_week E a tr k h = (tr, None)"
  by (simp add: submit_week_def)


lemma submit_week_submissions:
  "submit_week E a tr k h = (tr3, r) \<Longrightarrow>
   submissions tr3 = submissions tr @ (if dryrun a then [] else [(k, h)])"
  by (auto simp: submit_week_def trace_append trace_Cons trace_Nil split: option.splits if_splits)


lemma walk_dryrun:
  "dryrun a \<Longrightarrow> submissions (fst (walk E a data tr keys)) = submissions tr
     \<and> completed (fst (walk E a data tr keys)) = completed tr"
proof (induction keys arbitrary: tr)
  case Nil
  then show ?case by simp
next
  case (Cons key keys)
  then show ?case
    by (auto simp: Let_def submit_week_dryrun trace_append trace_Cons trace_Nil split: option.splits)
qed


lemma walk_once_bounds:
  assumes "once a"
  shows "length (matched (fst (walk E a data tr keys))) \<le> length (matched tr) + 1"
    and "length (submissions (fst (walk E a data tr keys))) \<le> length (submissions tr) + 1"
proof -
  have "length (matched (fst (walk E a data tr keys))) \<le> length (matched tr) + 1
      \<and> length (submissions (fst (walk E a data tr keys))) \<le> length (submissions tr) + 1"
  proof (cases rule: first_match_cases [of data keys])
    case none
    then show ?thesis
      by (simp add: walk_no_match trace_append others_logs)
  next
    case (some pre w h post)
    let ?tr2 = "tr @ map Log_overdue_date pre @ [Log_overdue_date w, Log_found_match w h]"
    obtain tr3 r where sw: "submit_week E a ?tr2 w h = (tr3, r)"
      by (cases "submit_week E a ?tr2 w h")
    have "fst (walk E a data tr keys) = tr3"
      using walk_first_match [OF some(2,3), of E a tr post] sw assms some(1)
      by (simp add: Let_def split: option.splits)
    moreover have "matched tr3 = matched tr @ [w]"
      using submit_week_views(2) [of E a ?tr2 w h] sw
      by (simp add: trace_append trace_Cons trace_Nil others_logs)
    moreover have "length (submissions tr3) \<le> length (submissions tr) + 1"
      using submit_week_submissions [OF sw]
      by (simp add: trace_append trace_Cons trace_Nil others_logs)
    ultimately show ?thesis by simp
  qed
  then show "length (matched (fst (walk E a data tr keys))) \<le> length (matched tr) + 1"
    and "length (submissions (fst (walk E a data tr keys))) \<le> length (submissions tr) + 1"
    by simp_all
qed

lemma fcard_less_1: "fcard A < 1 \<longleftrightarrow> A = {||}"
  by (cases "A = {||}") (auto simp: fcard_seteq)

lemma run_no_overdue:
  assumes "Time_Reporter E (user a) (passwd a) = None" and "get_overdue_weeks E = Inr {||}"
  shows "run E a = ([New_Time_Reporter (user a) (passwd a), Get_overdue_weeks],
                    Raises (SystemExit (Some ''You have no overdue weeks. Congratulations!'')))"
  using assms by (simp add: run_def)

lemma run_list_overdue:
  assumes "Time_Reporter E (user a) (passwd a) = None" and "get_overdue_weeks E = Inr overdue"
    and "overdue \<noteq> {||}" and "list_overdue a"
  shows "run E a = ([New_Time_Reporter (user a) (passwd a), Get_overdue_weeks, Print ''Overdue Dates'']
                      @ map (\<lambda>k. Print (strftime E k ''%Y-%b-%d'')) (sorted_list_of_fset overdue),
                    Raises (SystemExit None))"
  using assms by (simp add: run_def fcard_less_1)

lemma run_loop:
  assumes "Time_Reporter E (user a) (passwd a) = None" and "get_overdue_weeks E = Inr overdue"
    and "overdue \<noteq> {||}" and "\<not> list_overdue a"
  shows "run E a =
     (case load_data E a overdue [New_Time_Reporter (user a) (passwd a), Get_overdue_weeks] of
        (tr2, Inl e) \<Rightarrow> (tr2, Raises e)
      | (tr2, Inr data) \<Rightarrow> walk E a data tr2 (sorted_list_of_fset overdue))"
  using assms by (simp add: run_def fcard_less_1)

lemma run_cases:
  obtains (constructor) e where "Time_Reporter E (user a) (passwd a) = Some e"
      and "run E a = ([New_Time_Reporter (user a) (passwd a)], Raises e)"
  | (overdue_raises) e where "Time_Reporter E (user a) (passwd a) = None"
      and "get_overdue_weeks E = Inl e"
      and "run E a = ([New_Time_Reporter (user a) (passwd a), Get_overdue_weeks], Raises e)"
  | (no_overdue) "Time_Reporter E (user a) (passwd a) = None" and "get_overdue_weeks E = Inr {||}"
  | (listing) overdue where "Time_Reporter E (user a) (passwd a) = None"
      and "get_overdue_weeks E = Inr overdue" and "overdue \<noteq> {||}" and "list_overdue a"
  | (load_raises) overdue evs e where "Time_Reporter E (user a) (passwd a) = None"
      and "get_overdue_weeks E = Inr overdue" and "overdue \<noteq> {||}" and "\<not> list_overdue a"
      and "list_all is_data_source evs"
      and "load_data E a overdue [New_Time_Reporter (user a) (passwd a), Get_overdue_weeks]
           = ([New_Time_Reporter (user a) (passwd a), Get_overdue_weeks] @ evs, Inl e)"
      and "run E a = ([New_Time_Reporter (user a) (passwd a), Get_overdue_weeks] @ evs, Raises e)"
  | (loop) overdue evs data where "Time_Reporter E (user a) (passwd a) = None"
      and "get_overdue_weeks E = Inr overdue" and "overdue \<noteq> {||}" and "\<not> list_overdue a"
      and "list_all is_data_source evs"
      and "load_data E a overdue [New_Time_Reporter (user a) (passwd a), Get_overdue_weeks]
           = ([New_Time_Reporter (user a) (passwd a), Get_overdue_weeks] @ evs, Inr data)"
      and "run E a = walk E a data ([New_Time_Reporter (user a) (passwd a), Get_overdue_weeks] @ evs)
                       (sorted_list_of_fset overdue)"
proof (cases "Time_Reporter E (user a) (passwd a)")
  case (Some e)
  then show ?thesis using constructor by (simp add: run_def)
next
  case None
  show ?thesis
  proof (cases "get_overdue_weeks E")
    case (Inl e)
    with None show ?thesis using overdue_raises by (simp add: run_def)
  next
    case (Inr overdue)
    show ?thesis
    proof (cases "overdue = {||}")
      case True
      with None Inr show ?thesis using no_overdue by simp
    next
      case ne: False
      show ?thesis
      proof (cases "list_overdue a")
        case True
        with None Inr ne show ?thesis using listing by simp
      next
        case False
        let ?tr1 = "[New_Time_Reporter (user a) (passwd a), Get_overdue_weeks]"
        obtain evs where evs: "fst (load_data E a overdue ?tr1) = ?tr1 @ evs"
          "list_all is_data_source evs"
          using load_data_trace [of E a overdue ?tr1] by blast
        show ?thesis
        proof (cases "snd (load_data E a overdue ?tr1)")
          case (Inl e)
          with evs have ld: "load_data E a overdue ?tr1 = (?tr1 @ evs, Inl e)"
            by (cases "load_data E a overdue ?tr1") simp
          with run_loop [OF None Inr ne False] have "run E a = (?tr1 @ evs, Raises e)" by simp
          with None Inr ne False evs(2) ld show ?thesis using load_raises by blast
        next
          case (Inr data)
          with evs have ld: "load_data E a overdue ?tr1 = (?tr1 @ evs, Inr data)"
            by (cases "load_data E a overdue ?tr1") simp
          with run_loop [OF None \<open>get_overdue_weeks E = Inr overdue\<close> ne False]
          have "run E a = walk E a data (?tr1 @ evs) (sorted_list_of_fset overdue)" by simp
          with None \<open>get_overdue_weeks E = Inr overdue\<close> ne False evs(2) ld show ?thesis
            using loop by blast
        qed
      qed
    qed
  qed
qed

text \<open>
  C5: in a run with \<open>dryrun\<close> set, \<open>submit\<close> is never called, whatever the back end
  reports as overdue, whatever the data source holds and whatever the other flags are.
\<close>

theorem dryrun_never_submits:
  assumes "dryrun a"
  shows "submissions (fst (run E a)) = [] \<and> (\<forall>k h. Submit k h \<notin> set (fst (run E a)))"
proof -
  have "submissions (fst (run E a)) = []"
  proof (cases rule: run_cases [of E a])
    case (constructor e)
    then show ?thesis by (simp add: trace_Cons trace_Nil)
  next
    case (overdue_raises e)
    then show ?thesis by (simp add: trace_Cons trace_Nil)
  next
    case no_overdue
    then show ?thesis by (simp add: run_no_overdue trace_Cons trace_Nil)
  next
    case (listing overdue)
    then show ?thesis
      by (simp add: run_list_overdue trace_Cons trace_Nil submissions_def comp_def)
  next
    case (load_raises overdue evs e)
    then show ?thesis
      by (simp add: trace_append trace_Cons trace_Nil data_source_events)
  next
    case (loop overdue evs data)
    then show ?thesis
      using walk_dryrun [OF assms, of E data]
      by (simp add: trace_append trace_Cons trace_Nil data_source_events del: append.simps)
  qed
  then show ?thesis by (simp add: Submit_in_submissions)
qed

theorem dryrun_never_submits_witness:
  "dryrun (sample_args\<lparr>dryrun := True\<rparr>)
   \<and> matched (fst (run (sample_env [''2023-01-01,,,,,\<newline>'', ''2023-01-08,1,2,3,4,5\<newline>'']
                          {|(2023, 1, 8), (2023, 1, 1)|})
                   (sample_args\<lparr>dryrun := True\<rparr>)))
       = [(2023, 1, 1), (2023, 1, 8)]
   \<and> submissions (fst (run (sample_env [''2023-01-01,,,,,\<newline>'', ''2023-01-08,1,2,3,4,5\<newline>'']
                              {|(2023, 1, 8), (2023, 1, 1)|})
                       (sample_args\<lparr>dryrun := True\<rparr>)))
       = []"
proof -
  have dry: "dryrun (sample_args\<lparr>dryrun := True\<rparr>)"
    by simp
  have two: "matched (fst (run (sample_env [''2023-01-01,,,,,\<newline>'', ''2023-01-08,1,2,3,4,5\<newline>'']
                          {|(2023, 1, 8), (2023, 1, 1)|})
                   (sample_args\<lparr>dryrun := True\<rparr>)))
       = [(2023, 1, 1), (2023, 1, 8)]"
    by code_simp
  from dry two conjunct1 [OF dryrun_never_submits [OF dry]] show ?thesis
    by (intro conjI)
qed

text \<open>
  C9: when the back end reports no overdue week and \<open>list_overdue\<close> is set, the run ends
  on the no-overdue path, raising \<open>SystemExit\<close> with the no-overdue message: the test
  for emptiness comes before the listing, so nothing is printed, not even the heading
  of the list.
\<close>

theorem no_overdue_before_listing:
  assumes "Time_Reporter E (user a) (passwd a) = None"
    and "get_overdue_weeks E = Inr {||}"
    and "list_overdue a"
  shows "run E a = ([New_Time_Reporter (user a) (passwd a), Get_overdue_weeks],
                    Raises (SystemExit (Some ''You have no overdue weeks. Congratulations!'')))
     \<and> printed (fst (run E a)) = []"
  by (simp add: run_no_overdue [OF assms(1,2)] trace_Cons trace_Nil)

theorem no_overdue_before_listing_witness:
  "list_overdue (sample_args\<lparr>list_overdue := True\<rparr>)
   \<and> run (sample_env [] {||}) (sample_args\<lparr>list_overdue := True\<rparr>)
       = ([New_Time_Reporter ''u'' ''p'', Get_overdue_weeks],
          Raises (SystemExit (Some ''You have no overdue weeks. Congratulations!'')))
   \<and> printed (fst (run (sample_env [] {||} :: ymd env) (sample_args\<lparr>list_overdue := True\<rparr>))) = []"
proof -
  have c: "Time_Reporter (sample_env [] {||} :: ymd env)
             (user (sample_args\<lparr>list_overdue := True\<rparr>)) (passwd (sample_args\<lparr>list_overdue := True\<rparr>)) = None"
    by (simp add: sample_env_def)
  have e: "get_overdue_weeks (sample_env [] {||} :: ymd env) = Inr {||}"
    by (simp add: sample_env_def)
  have l: "list_overdue (sample_args\<lparr>list_overdue := True\<rparr>)"
    by simp
  have u: "user (sample_args\<lparr>list_overdue := True\<rparr>) = ''u''"
    "passwd (sample_args\<lparr>list_overdue := True\<rparr>) = ''p''"
    by (simp_all add: sample_args_def)
  note inst = no_overdue_before_listing [OF c e l]
  from conjunct1 [OF inst] have r: "run (sample_env [] {||} :: ymd env) (sample_args\<lparr>list_overdue := True\<rparr>)
       = ([New_Time_Reporter ''u'' ''p'', Get_overdue_weeks],
          Raises (SystemExit (Some ''You have no overdue weeks. Congratulations!'')))"
    by (simp only: u)
  from l r conjunct2 [OF inst] show ?thesis
    by (intro conjI)
qed

text \<open>
  C3: when the back end reports no overdue week, the run ends at once: the only calls are
  the construction of the reporter and \<open>get_overdue_weeks\<close>, so no data source is read
  and nothing is submitted. The run does not end successfully, though: it ends by
  \<open>SystemExit\<close> with the message as argument, which the interpreter prints on the
  standard error stream before it exits with status 1, where the other two exits of
  \<open>run\<close> raise \<open>SystemExit\<close> without an argument and give status 0.
\<close>

theorem no_overdue_exit:
  assumes "Time_Reporter E (user a) (passwd a) = None"
    and "get_overdue_weeks E = Inr {||}"
  shows "run E a = ([New_Time_Reporter (user a) (passwd a), Get_overdue_weeks],
                    Raises (SystemExit (Some ''You have no overdue weeks. Congratulations!'')))
     \<and> filter is_data_source (fst (run E a)) = []
     \<and> submissions (fst (run E a)) = []
     \<and> exit_status (snd (run E a)) = 1"
  by (simp add: run_no_overdue [OF assms] trace_Cons trace_Nil is_data_source_def exit_status_def)

theorem no_overdue_exit_witness:
  "run (sample_env [''2023-01-01,,,,,\<newline>''] {||}) sample_args
       = ([New_Time_Reporter ''u'' ''p'', Get_overdue_weeks],
          Raises (SystemExit (Some ''You have no overdue weeks. Congratulations!'')))
   \<and> exit_status (snd (run (sample_env [''2023-01-01,,,,,\<newline>''] {||} :: ymd env) sample_args)) = 1
   \<and> exit_status (snd (run (sample_env [] {|(2023, 1, 1)|}) (sample_args\<lparr>list_overdue := True\<rparr>))) = 0"
proof -
  have c: "Time_Reporter (sample_env [''2023-01-01,,,,,\<newline>''] {||} :: ymd env)
             (user sample_args) (passwd sample_args) = None"
    by (simp add: sample_env_def)
  have e: "get_overdue_weeks (sample_env [''2023-01-01,,,,,\<newline>''] {||} :: ymd env) = Inr {||}"
    by (simp add: sample_env_def)
  have z: "exit_status (snd (run (sample_env [] {|(2023, 1, 1)|}) (sample_args\<lparr>list_overdue := True\<rparr>))) = 0"
    by code_simp
  have u: "user sample_args = ''u''" "passwd sample_args = ''p''"
    by (simp_all add: sample_args_def)
  note inst = no_overdue_exit [OF c e]
  from conjunct1 [OF inst] have r: "run (sample_env [''2023-01-01,,,,,\<newline>''] {||} :: ymd env) sample_args
       = ([New_Time_Reporter ''u'' ''p'', Get_overdue_weeks],
          Raises (SystemExit (Some ''You have no overdue weeks. Congratulations!'')))"
    by (simp only: u)
  from r conjunct2 [OF conjunct2 [OF conjunct2 [OF inst]]] z show ?thesis
    by (intro conjI)
qed

lemma printed_Prints: "printed (map (\<lambda>k. Print (f k)) ks) = map f ks"
  by (induction ks) (simp_all add: trace_Nil trace_Cons)

lemma no_data_source_Prints: "filter is_data_source (map (\<lambda>k. Print (f k)) ks) = []"
  by (induction ks) (simp_all add: is_data_source_def)

lemma submissions_Prints: "submissions (map (\<lambda>k. Print (f k)) ks) = []"
  by (induction ks) (simp_all add: trace_Nil trace_Cons)

lemma strict_sorted_list_of_fset: "sorted_wrt (<) (sorted_list_of_fset A)"
  by (simp add: sorted_list_of_fset.rep_eq)

text \<open>
  C8, as the code has it: in a run with \<open>list_overdue\<close> set and at least one overdue week,
  the output is the line \<open>Overdue Dates\<close> followed by exactly the overdue dates in
  strictly ascending order, each formatted by \<open>strftime\<close> with \<open>%Y-%b-%d\<close>; then the run
  ends with status 0, and neither a data source is read nor anything submitted.
\<close>

theorem list_overdue_output:
  assumes "Time_Reporter E (user a) (passwd a) = None"
    and "get_overdue_weeks E = Inr overdue"
    and "overdue \<noteq> {||}"
    and "list_overdue a"
  shows "printed (fst (run E a))
           = ''Overdue Dates'' # map (\<lambda>k. strftime E k ''%Y-%b-%d'') (sorted_list_of_fset overdue)
     \<and> sorted_wrt (<) (sorted_list_of_fset overdue)
     \<and> set (sorted_list_of_fset overdue) = fset overdue
     \<and> snd (run E a) = Raises (SystemExit None)
     \<and> exit_status (snd (run E a)) = 0
     \<and> filter is_data_source (fst (run E a)) = []
     \<and> submissions (fst (run E a)) = []"
  by (simp add: run_list_overdue [OF assms] trace_append trace_Cons trace_Nil printed_Prints
      no_data_source_Prints submissions_Prints strict_sorted_list_of_fset is_data_source_def
      exit_status_def)

theorem list_overdue_output_witness:
  "list_overdue (sample_args\<lparr>list_overdue := True\<rparr>)
   \<and> printed (fst (run (sample_env [] {|(2023, 3, 12), (2023, 1, 1)|}) (sample_args\<lparr>list_overdue := True\<rparr>)))
       = [''Overdue Dates'', ''2023-Jan-01'', ''2023-Mar-12'']
   \<and> exit_status (snd (run (sample_env [] {|(2023, 3, 12), (2023, 1, 1)|}) (sample_args\<lparr>list_overdue := True\<rparr>))) = 0"
proof -
  define E :: "ymd env" where "E = sample_env [] {|(2023, 3, 12), (2023, 1, 1)|}"
  define a where "a = sample_args\<lparr>list_overdue := True\<rparr>"
  have c: "Time_Reporter E (user a) (passwd a) = None"
    by (simp add: E_def sample_env_def)
  have g: "get_overdue_weeks E = Inr {|(2023, 3, 12), (2023, 1, 1)|}"
    by (simp add: E_def sample_env_def)
  have ne: "{|(2023 :: int, 3 :: int, 12 :: int), (2023, 1, 1)|} \<noteq> {||}"
    by simp
  have l: "list_overdue a"
    by (simp add: a_def)
  have dates: "''Overdue Dates'' # map (\<lambda>k. strftime E k ''%Y-%b-%d'')
                 (sorted_list_of_fset {|(2023, 3, 12), (2023, 1, 1)|})
      = [''Overdue Dates'', ''2023-Jan-01'', ''2023-Mar-12'']"
    unfolding E_def by code_simp
  note inst = list_overdue_output [OF c g ne l]
  have "printed (fst (run E a)) = [''Overdue Dates'', ''2023-Jan-01'', ''2023-Mar-12'']"
    using conjunct1 [OF inst] by (simp only: dates)
  moreover have "exit_status (snd (run E a)) = 0"
    using inst by (elim conjE)
  ultimately show ?thesis
    using l unfolding E_def a_def by (intro conjI)
qed

text \<open>
  C8 as the claim states it, that the output is exactly the overdue dates, fails: the
  first line printed is a heading.
\<close>

theorem list_overdue_output_counterexample:
  "printed (fst (run (sample_env [] {|(2023, 3, 12), (2023, 1, 1)|}) (sample_args\<lparr>list_overdue := True\<rparr>)))
     \<noteq> map (\<lambda>k. strftime (sample_env [] {|(2023, 3, 12), (2023, 1, 1)|}) k ''%Y-%b-%d'')
          (sorted_list_of_fset {|(2023, 3, 12), (2023, 1, 1)|})"
  by code_simp

lemma matched_Prints: "matched (map (\<lambda>k. Print (f k)) ks) = []"
  by (induction ks) (simp_all add: trace_Nil trace_Cons)

lemma run_once_bounds:
  assumes "once a"
  shows "length (matched (fst (run E a))) \<le> 1 \<and> length (submissions (fst (run E a))) \<le> 1"
proof (cases rule: run_cases [of E a])
  case (constructor e)
  then show ?thesis by (simp add: trace_Cons trace_Nil)
next
  case (overdue_raises e)
  then show ?thesis by (simp add: trace_Cons trace_Nil)
next
  case no_overdue
  then show ?thesis by (simp add: run_no_overdue trace_Cons trace_Nil)
next
  case (listing overdue)
  then show ?thesis
    by (simp add: run_list_overdue trace_Cons trace_Nil submissions_Prints matched_Prints)
next
  case (load_raises overdue evs e)
  then show ?thesis
    by (simp add: trace_append trace_Cons trace_Nil data_source_events)
next
  case (loop overdue evs data)
  let ?tr2 = "[New_Time_Reporter (user a) (passwd a), Get_overdue_weeks] @ evs"
  have "matched ?tr2 = []" "submissions ?tr2 = []"
    using loop(5) by (simp_all add: trace_append trace_Cons trace_Nil data_source_events)
  with walk_once_bounds [OF assms, of E data ?tr2 "sorted_list_of_fset overdue"] loop(7)
  show ?thesis by simp
qed

lemma run_first_match:
  assumes "once a"
    and "Time_Reporter E (user a) (passwd a) = None"
    and "get_overdue_weeks E = Inr overdue"
    and "overdue \<noteq> {||}"
    and "\<not> list_overdue a"
    and "load_data E a overdue [New_Time_Reporter (user a) (passwd a), Get_overdue_weeks] = (tr2, Inr data)"
    and "sorted_list_of_fset overdue = pre @ w # post"
    and "list_all (\<lambda>k. data k = None) pre"
    and "data w = Some h"
  shows "run E a =
       (case submit_week E a (tr2 @ map Log_overdue_date pre @ [Log_overdue_date w, Log_found_match w h]) w h of
          (tr3, Some e) \<Rightarrow> (tr3, Raises e)
        | (tr3, None) \<Rightarrow> (tr3, Raises (SystemExit None)))"
    and "visited (fst (run E a)) = pre @ [w]"
    and "matched (fst (run E a)) = [w]"
    and "snd (run E a) \<noteq> Returns"
proof -
  let ?tr1 = "[New_Time_Reporter (user a) (passwd a), Get_overdue_weeks]"
  let ?tr = "tr2 @ map Log_overdue_date pre @ [Log_overdue_date w, Log_found_match w h]"
  have "run E a = walk E a data tr2 (pre @ w # post)"
    using run_loop [OF assms(2-5)] assms(6,7) by simp
  then show r: "run E a =
       (case submit_week E a ?tr w h of
          (tr3, Some e) \<Rightarrow> (tr3, Raises e)
        | (tr3, None) \<Rightarrow> (tr3, Raises (SystemExit None)))"
    using walk_first_match [OF assms(8,9), of E a tr2 post] assms(1)
    by (simp add: Let_def split: prod.splits option.splits)
  obtain tr3 x where sw: "submit_week E a ?tr w h = (tr3, x)"
    by (cases "submit_week E a ?tr w h")
  with r have f: "fst (run E a) = fst (submit_week E a ?tr w h)" and s: "snd (run E a) \<noteq> Returns"
    by (auto split: option.splits)
  obtain evs where evs: "tr2 = ?tr1 @ evs" "list_all is_data_source evs"
    using load_data_trace [of E a overdue ?tr1] assms(6) by auto
  then have "visited tr2 = []" "matched tr2 = []"
    by (simp_all add: trace_append trace_Cons trace_Nil data_source_events)
  then show "visited (fst (run E a)) = pre @ [w]" and "matched (fst (run E a)) = [w]"
    unfolding f submit_week_views
    by (simp_all add: trace_append trace_Cons trace_Nil visited_logs others_logs)
  from s show "snd (run E a) \<noteq> Returns" .
qed

text \<open>
  C6: in a run with \<open>once\<close> set, at most one overdue week is matched and \<open>submit\<close> is
  called at most once. When the loop is reached and \<open>w\<close> is the first of the sorted
  overdue weeks that the data holds, the weeks before it are visited and passed over,
  \<open>w\<close> is handled (matched, and submitted unless \<open>dryrun\<close> is set), and the run ends
  there, with or without \<open>dryrun\<close>: no later week is visited, and the run does not
  return normally.
\<close>

theorem once_stops_after_first_match:
  assumes "once a"
  shows "length (matched (fst (run E a))) \<le> 1
     \<and> length (submissions (fst (run E a))) \<le> 1
     \<and> (Time_Reporter E (user a) (passwd a) = None
          \<and> get_overdue_weeks E = Inr overdue
          \<and> overdue \<noteq> {||}
          \<and> \<not> list_overdue a
          \<and> load_data E a overdue [New_Time_Reporter (user a) (passwd a), Get_overdue_weeks] = (tr2, Inr data)
          \<and> sorted_list_of_fset overdue = pre @ w # post
          \<and> list_all (\<lambda>k. data k = None) pre
          \<and> data w = Some h
        \<longrightarrow> run E a =
              (case submit_week E a (tr2 @ map Log_overdue_date pre @ [Log_overdue_date w, Log_found_match w h]) w h of
                 (tr3, Some e) \<Rightarrow> (tr3, Raises e)
               | (tr3, None) \<Rightarrow> (tr3, Raises (SystemExit None)))
            \<and> visited (fst (run E a)) = pre @ [w]
            \<and> matched (fst (run E a)) = [w]
            \<and> snd (run E a) \<noteq> Returns)"
  using run_once_bounds [OF assms, of E] run_first_match [OF assms, of E overdue tr2 data pre w post h]
  by blast

theorem once_stops_after_first_match_witness:
  "once (sample_args\<lparr>once := True\<rparr>)
   \<and> run (sample_env [''date,M,T,W,R,F\<newline>'', ''2023-01-08,1,2,3,4,5\<newline>'']
            {|(2023, 1, 15), (2023, 1, 1), (2023, 1, 8)|})
         (sample_args\<lparr>once := True\<rparr>)
       = ([New_Time_Reporter ''u'' ''p'', Get_overdue_weeks, Process_csv ''hours.csv'',
           Log_overdue_date (2023, 1, 1), Log_overdue_date (2023, 1, 8),
           Log_found_match (2023, 1, 8) [1, 2, 3, 4, 5], Submit (2023, 1, 8) [1, 2, 3, 4, 5],
           Log_submitted (2023, 1, 8) [1, 2, 3, 4, 5]],
          Raises (SystemExit None))
   \<and> length (submissions (fst (run (sample_env [''date,M,T,W,R,F\<newline>'', ''2023-01-08,1,2,3,4,5\<newline>'']
                                     {|(2023, 1, 15), (2023, 1, 1), (2023, 1, 8)|})
                                  (sample_args\<lparr>once := True\<rparr>)))) \<le> 1"
proof -
  define E :: "ymd env" where
    "E = sample_env [''date,M,T,W,R,F\<newline>'', ''2023-01-08,1,2,3,4,5\<newline>'']
           {|(2023, 1, 15), (2023, 1, 1), (2023, 1, 8)|}"
  define a where "a = sample_args\<lparr>once := True\<rparr>"
  define data :: "ymd \<rightharpoonup> int list" where "data = [(2023, 1, 8) \<mapsto> [1, 2, 3, 4, 5]]"
  have u: "user a = ''u''" "passwd a = ''p''" "dryrun a = False"
    by (simp_all add: a_def sample_args_def)
  have o: "once a"
    by (simp add: a_def)
  have c: "Time_Reporter E (user a) (passwd a) = None"
    by (simp add: E_def sample_env_def)
  have g: "get_overdue_weeks E = Inr {|(2023, 1, 15), (2023, 1, 1), (2023, 1, 8)|}"
    by (simp add: E_def sample_env_def)
  have ne: "{|(2023 :: int, 1 :: int, 15 :: int), (2023, 1, 1), (2023, 1, 8)|} \<noteq> {||}"
    by simp
  have nl: "\<not> list_overdue a"
    by (simp add: a_def sample_args_def)
  have l1: "process_line E ''date,M,T,W,R,F\<newline>'' = Inr (Skip Malformed_date)"
    unfolding E_def by (rule sample_line_header)
  have l2: "process_line E ''2023-01-08,1,2,3,4,5\<newline>'' = Inr (Store (2023, 1, 8) [1, 2, 3, 4, 5])"
    unfolding E_def by (rule sample_line_jan_08)
  have fl: "file_lines E ''hours.csv'' = Inr [''date,M,T,W,R,F\<newline>'', ''2023-01-08,1,2,3,4,5\<newline>'']"
    by (simp add: E_def sample_env_def)
  have csv: "process_csv E ''hours.csv'' = Inr data"
    unfolding process_csv_def fl data_def
    by (simp only: process_lines.simps l1 l2 sum.case verdict.case)
  have p: "csv_path a = Some ''hours.csv''"
    by (simp add: csv_path_def a_def sample_args_def)
  have ld: "load_data E a {|(2023, 1, 15), (2023, 1, 1), (2023, 1, 8)|}
              [New_Time_Reporter (user a) (passwd a), Get_overdue_weeks]
            = ([New_Time_Reporter ''u'' ''p'', Get_overdue_weeks, Process_csv ''hours.csv''], Inr data)"
    by (simp add: load_data_def p csv u)
  have keys: "sorted_list_of_fset {|(2023 :: int, 1 :: int, 15 :: int), (2023, 1, 1), (2023, 1, 8)|}
      = [(2023, 1, 1)] @ (2023, 1, 8) # [(2023, 1, 15)]"
    by code_simp
  have before: "list_all (\<lambda>k. data k = None) [(2023, 1, 1)]"
    by (simp add: data_def)
  have hit: "data (2023, 1, 8) = Some [1, 2, 3, 4, 5]"
    by (simp add: data_def)
  note inst = once_stops_after_first_match [OF o, of E]
  have s: "submit E tr k h = None" for tr k h
    by (simp add: E_def sample_env_def)
  from conjunct2 [OF conjunct2 [OF inst], THEN mp, OF conjI [OF c conjI [OF g conjI [OF ne conjI [OF nl
      conjI [OF ld conjI [OF keys conjI [OF before hit]]]]]]]]
  have "run E a =
       (case submit_week E a ([New_Time_Reporter ''u'' ''p'', Get_overdue_weeks, Process_csv ''hours.csv'']
                @ map Log_overdue_date [(2023, 1, 1)]
                @ [Log_overdue_date (2023, 1, 8), Log_found_match (2023, 1, 8) [1, 2, 3, 4, 5]])
               (2023, 1, 8) [1, 2, 3, 4, 5] of
          (tr3, Some e) \<Rightarrow> (tr3, Raises e)
        | (tr3, None) \<Rightarrow> (tr3, Raises (SystemExit None)))"
    by (rule conjunct1)
  then have r: "run E a = ([New_Time_Reporter ''u'' ''p'', Get_overdue_weeks, Process_csv ''hours.csv'',
           Log_overdue_date (2023, 1, 1), Log_overdue_date (2023, 1, 8),
           Log_found_match (2023, 1, 8) [1, 2, 3, 4, 5], Submit (2023, 1, 8) [1, 2, 3, 4, 5],
           Log_submitted (2023, 1, 8) [1, 2, 3, 4, 5]],
          Raises (SystemExit None))"
    by (simp add: submit_week_def u s)
  from o r conjunct1 [OF conjunct2 [OF inst]] show ?thesis
    unfolding E_def a_def by (intro conjI)
qed






end
